theory Spec2Isabelle
  imports Complex_Main "HOL-Library.Multiset"
begin

section \<open>Python values read by the scorer\<close>

text \<open>
  The scorer of \<^verbatim>\<open>backend/ml/driver_scoring.py\<close> reads plain dictionaries. The values it
  reads are modelled by \<open>pyval\<close>: \<open>None\<close>, a number, or a string. Numbers are exact
  rationals: every finite Python \<open>int\<close> and \<open>float\<close> is one, and the arithmetic of the
  scorer is taken exactly (no binary rounding, no infinities, no NaN). A dictionary is a
  map from keys to values; an absent key is \<open>None\<close> of the map.
  Strings are byte strings; a pictograph in a message is written as its UTF-8 bytes.
\<close>

datatype pyval = PyNone | PyNum rat | PyStr string

datatype py_error = TypeError | ValueError | IndexError | ZeroDivisionError

type_synonym pydict = "string \<rightharpoonup> pyval"

text \<open>\<^verbatim>\<open>d.get(k, default)\<close>; \<^verbatim>\<open>d.get(k)\<close> is \<open>dict_get d k PyNone\<close>.\<close>

definition dict_get :: "pydict \<Rightarrow> string \<Rightarrow> pyval \<Rightarrow> pyval" where
  "dict_get d k dflt = (case d k of None \<Rightarrow> dflt | Some v \<Rightarrow> v)"

text \<open>Truth value of a Python object, and \<^verbatim>\<open>a or b\<close>.\<close>

fun truthy :: "pyval \<Rightarrow> bool" where
  "truthy PyNone = False"
| "truthy (PyNum r) = (r \<noteq> 0)"
| "truthy (PyStr s) = (s \<noteq> [])"

definition py_or :: "pyval \<Rightarrow> pyval \<Rightarrow> pyval" where
  "py_or a b = (if truthy a then a else b)"

text \<open>
  An operand of \<^verbatim>\<open>/ 1000\<close>, \<^verbatim>\<open>/ 60\<close> or \<^verbatim>\<open>* 3.6\<close>: a number is used as it is, \<open>None\<close> and
  strings raise \<open>TypeError\<close>.
\<close>

fun as_number :: "pyval \<Rightarrow> py_error + rat" where
  "as_number (PyNum r) = Inr r"
| "as_number PyNone = Inl TypeError"
| "as_number (PyStr s) = Inl TypeError"

text \<open>True division \<^verbatim>\<open>a / b\<close> of numbers: a zero divisor raises.\<close>

definition py_div :: "rat \<Rightarrow> rat \<Rightarrow> py_error + rat" where
  "py_div a b = (if b = 0 then Inl ZeroDivisionError else Inr (a / b))"

subsection \<open>Rounding and formatting\<close>

text \<open>
  Python's \<^verbatim>\<open>round(x)\<close> rounds to the nearest integer, a tie to the even neighbour;
  \<^verbatim>\<open>round(x, 1)\<close> does the same at one decimal place.
\<close>

definition py_round :: "rat \<Rightarrow> int" where
  "py_round x =
     (let f = \<lfloor>x\<rfloor>; d = x - of_int f
      in if d < 1 / 2 then f
         else if 1 / 2 < d then f + 1
         else if even f then f else f + 1)"

definition py_round1 :: "rat \<Rightarrow> rat" where
  "py_round1 x = of_int (py_round (x * 10)) / 10"

text \<open>Decimal digits of a natural number, as \<^verbatim>\<open>f"{count}"\<close> prints an \<open>int\<close>.\<close>

definition digit_char :: "nat \<Rightarrow> char" where
  "digit_char d = ''0123456789'' ! d"

fun str_nat :: "nat \<Rightarrow> string" where
  "str_nat n = (if n < 10 then [digit_char n] else str_nat (n div 10) @ [digit_char (n mod 10)])"

declare str_nat.simps [simp del]

text \<open>
  \<^verbatim>\<open>f"{x:.0f}"\<close> for a number: rounded to an integer (ties to even), with a minus sign
  when negative.
\<close>

definition format_0f :: "rat \<Rightarrow> string" where
  "format_0f x =
     (let n = py_round x
      in if n < 0 then CHR ''-'' # str_nat (nat (- n)) else str_nat (nat n))"

subsection \<open>Strings\<close>

fun startswith :: "string \<Rightarrow> string \<Rightarrow> bool" where
  "startswith s [] = True"
| "startswith [] (p # ps) = False"
| "startswith (c # cs) (p # ps) = (c = p \<and> startswith cs ps)"

text \<open>\<^verbatim>\<open>p in s\<close> for strings.\<close>

fun str_contains :: "string \<Rightarrow> string \<Rightarrow> bool" where
  "str_contains [] p = (p = [])"
| "str_contains (c # cs) p = (startswith (c # cs) p \<or> str_contains cs p)"

text \<open>\<^verbatim>\<open>s.split(sep)\<close> for a one-character separator.\<close>

fun str_split :: "char \<Rightarrow> string \<Rightarrow> string list" where
  "str_split sep [] = [[]]"
| "str_split sep (c # cs) =
     (if c = sep then [] # str_split sep cs
      else (case str_split sep cs of
              [] \<Rightarrow> [[c]]
            | t # ts \<Rightarrow> (c # t) # ts))"

text \<open>\<^verbatim>\<open>xs[-1]\<close>: the last element, \<open>IndexError\<close> on an empty list.\<close>

definition py_last :: "'a list \<Rightarrow> py_error + 'a" where
  "py_last xs = (case xs of [] \<Rightarrow> Inl IndexError | _ # _ \<Rightarrow> Inr (last xs))"

text \<open>
  \<^verbatim>\<open>int(s)\<close> for a string: surrounding whitespace is dropped, one sign is allowed, and
  the rest must be a non-empty run of decimal digits; anything else raises
  \<open>ValueError\<close>. (Underscores between digits cannot occur in a token cut at underscores;
  digits outside ASCII and the interpreter's limit on the number of digits are left out.)
\<close>

definition is_space :: "char \<Rightarrow> bool" where
  "is_space c = (c \<in> set [CHR '' '', CHR 0x09, CHR 0x0A, CHR 0x0B, CHR 0x0C, CHR 0x0D,
                           CHR 0x1C, CHR 0x1D, CHR 0x1E, CHR 0x1F])"

definition str_strip :: "string \<Rightarrow> string" where
  "str_strip s = rev (dropWhile is_space (rev (dropWhile is_space s)))"

definition digit_value :: "char \<Rightarrow> nat option" where
  "digit_value c =
     map_of [(CHR ''0'', 0), (CHR ''1'', 1), (CHR ''2'', 2), (CHR ''3'', 3), (CHR ''4'', 4),
             (CHR ''5'', 5), (CHR ''6'', 6), (CHR ''7'', 7), (CHR ''8'', 8), (CHR ''9'', 9)] c"

fun decimal_value :: "string \<Rightarrow> nat \<Rightarrow> nat option" where
  "decimal_value [] acc = Some acc"
| "decimal_value (c # cs) acc =
     (case digit_value c of None \<Rightarrow> None | Some d \<Rightarrow> decimal_value cs (10 * acc + d))"

definition py_int :: "string \<Rightarrow> py_error + int" where
  "py_int s =
     (let t = str_strip s;
          neg = (t \<noteq> [] \<and> hd t = CHR ''-'');
          ds = (if t \<noteq> [] \<and> (hd t = CHR ''-'' \<or> hd t = CHR ''+'') then tl t else t)
      in if ds = [] then Inl ValueError
         else (case decimal_value ds 0 of
                 None \<Rightarrow> Inl ValueError
               | Some n \<Rightarrow> Inr (if neg then - int n else int n)))"

section \<open>The scorer\<close>

subsection \<open>Result types\<close>

text \<open>
  The \<^verbatim>\<open>breakdown\<close> dictionary always has the same four keys, so it is a record; the
  \<^verbatim>\<open>SafetyScore\<close> dataclass is a record with the fields of the source.
\<close>

record breakdown_dict =
  base :: rat
  events :: rat
  overspeed :: rat
  sign_compliance :: rat

record SafetyScore =
  score :: int
  risk_level :: string
  grade :: string
  issues :: "string list"
  recommendations :: "string list"
  breakdown :: breakdown_dict

subsection \<open>Configuration tables of \<^verbatim>\<open>DriverScorer\<close>\<close>

definition EVENT_PENALTIES :: "(pyval \<times> rat) list" where
  "EVENT_PENALTIES =
     [(PyStr ''hard_brake'', 3), (PyStr ''harsh_accel'', 2),
      (PyStr ''overspeed'', 4), (PyStr ''unsafe_curve'', 7 / 2)]"

definition OVERSPEED_PENALTY_PER_KMH :: rat where
  "OVERSPEED_PENALTY_PER_KMH = 1 / 2"

definition RISK_THRESHOLDS :: "(string \<times> rat) list" where
  "RISK_THRESHOLDS = [(''low'', 80), (''medium'', 60), (''high'', 0)]"

definition GRADE_THRESHOLDS :: "(string \<times> rat) list" where
  "GRADE_THRESHOLDS = [(''A'', 90), (''B'', 80), (''C'', 70), (''D'', 60), (''F'', 0)]"

subsection \<open>Counting the events (lines 104 to 117)\<close>

text \<open>
  \<^verbatim>\<open>event_counts\<close> is a dictionary filled in the order in which event types are first
  seen, and the later loop runs over it in that order: an association list, a new key
  appended at the end, a known key counted up in place.
\<close>

type_synonym event_counts = "(pyval \<times> nat) list"

fun count_up :: "event_counts \<Rightarrow> pyval \<Rightarrow> event_counts" where
  "count_up [] k = [(k, 1)]"
| "count_up ((k', n) # rest) k =
     (if k' = k then (k', n + 1) # rest else (k', n) # count_up rest k)"

definition counts_get :: "event_counts \<Rightarrow> pyval \<Rightarrow> nat \<Rightarrow> nat" where
  "counts_get ec k dflt = (case map_of ec k of None \<Rightarrow> dflt | Some n \<Rightarrow> n)"

definition event_type_of :: "pydict \<Rightarrow> pyval" where
  "event_type_of event = dict_get event ''event_type'' (PyStr ''unknown'')"

text \<open>
  The excess of one overspeed event over the assumed limit of 50 km/h:
  \<^verbatim>\<open>max(0, (event.get("speed_m_s") or 0) * 3.6 - 50)\<close>.
\<close>

definition overspeed_amount :: "pydict \<Rightarrow> py_error + rat" where
  "overspeed_amount event =
     (case as_number (py_or (dict_get event ''speed_m_s'' PyNone) (PyNum 0)) of
        Inl e \<Rightarrow> Inl e
      | Inr speed_ms \<Rightarrow> Inr (max 0 (speed_ms * (36 / 10) - 50)))"

fun count_events :: "pydict list \<Rightarrow> event_counts \<Rightarrow> rat \<Rightarrow> py_error + (event_counts \<times> rat)" where
  "count_events [] ec max_overspeed_kmh = Inr (ec, max_overspeed_kmh)"
| "count_events (event # rest) ec max_overspeed_kmh =
     (let event_type = event_type_of event;
          ec' = count_up ec event_type
      in if event_type = PyStr ''overspeed'' then
           (case overspeed_amount event of
              Inl e \<Rightarrow> Inl e
            | Inr amount \<Rightarrow> count_events rest ec' (max max_overspeed_kmh amount))
         else count_events rest ec' max_overspeed_kmh)"

subsection \<open>Deductions and issues per event type (lines 119 to 137)\<close>

definition event_penalty :: "pyval \<Rightarrow> rat" where
  "event_penalty event_type =
     (case map_of EVENT_PENALTIES event_type of None \<Rightarrow> 2 | Some p \<Rightarrow> p)"

definition type_deduction :: "rat \<Rightarrow> pyval \<Rightarrow> nat \<Rightarrow> py_error + rat" where
  "type_deduction distance_km event_type cnt =
     (case py_div (of_nat cnt) distance_km of
        Inl e \<Rightarrow> Inl e
      | Inr q \<Rightarrow> Inr (q * 100 * event_penalty event_type))"

definition type_issue :: "pyval \<Rightarrow> nat \<Rightarrow> string list" where
  "type_issue event_type cnt =
     (if cnt > 0 then
        (if event_type = PyStr ''hard_brake'' then [''Hard braking: '' @ str_nat cnt @ '' times'']
         else if event_type = PyStr ''harsh_accel'' then [''Harsh acceleration: '' @ str_nat cnt @ '' times'']
         else if event_type = PyStr ''overspeed'' then [''Over speed limit: '' @ str_nat cnt @ '' times'']
         else if event_type = PyStr ''unsafe_curve'' then [''Unsafe cornering: '' @ str_nat cnt @ '' times'']
         else [])
      else [])"

fun deduct_events ::
  "rat \<Rightarrow> event_counts \<Rightarrow> rat \<Rightarrow> string list \<Rightarrow> py_error + (rat \<times> string list)" where
  "deduct_events distance_km [] event_deduction iss = Inr (event_deduction, iss)"
| "deduct_events distance_km ((event_type, cnt) # rest) event_deduction iss =
     (case type_deduction distance_km event_type cnt of
        Inl e \<Rightarrow> Inl e
      | Inr deduction \<Rightarrow>
          deduct_events distance_km rest (event_deduction + deduction)
            (iss @ type_issue event_type cnt))"

subsection \<open>Speed-limit signs among the detections (lines 148 to 167)\<close>

text \<open>
  One pass of the loop body for a detection: the limits found so far, extended or not.
  \<^verbatim>\<open>"speed_limit_" in sign_class\<close> raises \<open>TypeError\<close> when \<open>sign_class\<close> is not a string;
  the \<open>ValueError\<close> of \<^verbatim>\<open>int\<close> is caught by the handler, any other error is not.
\<close>

definition scan_detection :: "pydict \<Rightarrow> int list \<Rightarrow> py_error + int list" where
  "scan_detection detection detected_limits =
     (case dict_get detection ''sign_class'' (PyStr '''') of
        PyStr sign_class \<Rightarrow>
          (if str_contains sign_class ''speed_limit_'' then
             (case py_last (str_split (CHR ''_'') sign_class) of
                Inl e \<Rightarrow> Inl e
              | Inr token \<Rightarrow>
                  (case py_int token of
                     Inr limit \<Rightarrow> Inr (detected_limits @ [limit])
                   | Inl ValueError \<Rightarrow> Inr detected_limits
                   | Inl e \<Rightarrow> Inl e))
           else Inr detected_limits)
      | _ \<Rightarrow> Inl TypeError)"

fun scan_detections :: "pydict list \<Rightarrow> int list \<Rightarrow> py_error + int list" where
  "scan_detections [] detected_limits = Inr detected_limits"
| "scan_detections (detection # rest) detected_limits =
     (case scan_detection detection detected_limits of
        Inl e \<Rightarrow> Inl e
      | Inr detected_limits' \<Rightarrow> scan_detections rest detected_limits')"

subsection \<open>Risk level and grade (lines 173 to 185)\<close>

text \<open>
  \<^verbatim>\<open>sorted(table.items(), key=lambda x: x[1], reverse=True)\<close>: a stable sort by falling
  threshold. The loop takes the first entry whose threshold the score reaches and keeps
  the default when there is none.
\<close>

definition sorted_desc :: "(string \<times> rat) list \<Rightarrow> (string \<times> rat) list" where
  "sorted_desc table = sort_key (\<lambda>x. - snd x) table"

fun first_reached :: "rat \<Rightarrow> (string \<times> rat) list \<Rightarrow> string \<Rightarrow> string" where
  "first_reached final_score [] dflt = dflt"
| "first_reached final_score ((name, threshold) # rest) dflt =
     (if final_score \<ge> threshold then name else first_reached final_score rest dflt)"

definition risk_level_of :: "rat \<Rightarrow> string" where
  "risk_level_of final_score = first_reached final_score (sorted_desc RISK_THRESHOLDS) ''high''"

definition grade_of :: "rat \<Rightarrow> string" where
  "grade_of final_score = first_reached final_score (sorted_desc GRADE_THRESHOLDS) ''F''"

subsection \<open>Recommendations (lines 199 to 261)\<close>

definition REC_FOLLOWING_DISTANCE :: string where
  "REC_FOLLOWING_DISTANCE =
     [CHR 0xF0, CHR 0x9F, CHR 0x9A, CHR 0x97] @
     '' Maintain a larger following distance to avoid hard braking. '' @
     ''Try to anticipate stops 3-4 seconds ahead.''"

definition REC_LOOK_AHEAD :: string where
  "REC_LOOK_AHEAD =
     [CHR 0xF0, CHR 0x9F, CHR 0x92, CHR 0xA1] @
     '' Look further ahead to anticipate traffic slowdowns and brake more gradually.''"

definition REC_SMOOTH_ACCEL :: string where
  "REC_SMOOTH_ACCEL =
     [CHR 0xE2, CHR 0x9A, CHR 0xA1] @
     '' Smooth acceleration saves fuel and reduces wear. '' @
     ''Try to take 5+ seconds to reach cruising speed.''"

definition REC_DANGEROUS_SPEED :: string where
  "REC_DANGEROUS_SPEED =
     [CHR 0xF0, CHR 0x9F, CHR 0x9A, CHR 0xA8] @
     '' Significantly exceeding speed limits is dangerous. '' @
     ''Use cruise control to maintain safe speeds.''"

definition REC_WATCH_SPEED :: string where
  "REC_WATCH_SPEED =
     [CHR 0xE2, CHR 0x9A, CHR 0xA0, CHR 0xEF, CHR 0xB8, CHR 0x8F] @
     '' Watch your speed after passing speed limit signs. '' @
     ''It takes time to adjust - start slowing early.''"

definition REC_CURVES :: string where
  "REC_CURVES =
     [CHR 0xF0, CHR 0x9F, CHR 0x94, CHR 0x84] @
     '' Slow down before entering curves, not during. '' @
     ''Reduce speed to a comfortable level before the turn.''"

definition REC_EXCELLENT :: string where
  "REC_EXCELLENT =
     [CHR 0xF0, CHR 0x9F, CHR 0x8C, CHR 0x9F] @
     '' Excellent driving! Keep up the safe habits. '' @
     ''Your smooth driving style is both safe and fuel-efficient.''"

text \<open>One definition per rule of the source, each returning the list extended or not.\<close>

definition rec_hard_brake :: "event_counts \<Rightarrow> rat \<Rightarrow> string list \<Rightarrow> py_error + string list" where
  "rec_hard_brake ec distance_km recs =
     (let hard_brakes = counts_get ec (PyStr ''hard_brake'') 0
      in if hard_brakes > 0 then
           (case py_div (of_nat hard_brakes) distance_km of
              Inl e \<Rightarrow> Inl e
            | Inr q \<Rightarrow>
                (let rate = q * 100
                 in if rate > 5 then Inr (recs @ [REC_FOLLOWING_DISTANCE])
                    else if rate > 2 then Inr (recs @ [REC_LOOK_AHEAD])
                    else Inr recs))
         else Inr recs)"

definition rec_harsh_accel :: "event_counts \<Rightarrow> rat \<Rightarrow> string list \<Rightarrow> py_error + string list" where
  "rec_harsh_accel ec distance_km recs =
     (let harsh_accels = counts_get ec (PyStr ''harsh_accel'') 0
      in if harsh_accels > 0 then
           (case py_div (of_nat harsh_accels) distance_km of
              Inl e \<Rightarrow> Inl e
            | Inr q \<Rightarrow>
                (let rate = q * 100
                 in if rate > 3 then Inr (recs @ [REC_SMOOTH_ACCEL]) else Inr recs))
         else Inr recs)"

definition rec_overspeed :: "event_counts \<Rightarrow> rat \<Rightarrow> string list \<Rightarrow> string list" where
  "rec_overspeed ec max_overspeed_kmh recs =
     (let overspeeds = counts_get ec (PyStr ''overspeed'') 0
      in if overspeeds > 0 \<or> max_overspeed_kmh > 5 then
           (if max_overspeed_kmh > 20 then recs @ [REC_DANGEROUS_SPEED]
            else recs @ [REC_WATCH_SPEED])
         else recs)"

definition rec_unsafe_curve :: "event_counts \<Rightarrow> string list \<Rightarrow> string list" where
  "rec_unsafe_curve ec recs =
     (let unsafe_curves = counts_get ec (PyStr ''unsafe_curve'') 0
      in if unsafe_curves > 0 then recs @ [REC_CURVES] else recs)"

definition generate_recommendations :: "event_counts \<Rightarrow> rat \<Rightarrow> rat \<Rightarrow> py_error + string list" where
  "generate_recommendations ec max_overspeed_kmh distance_km =
     (case rec_hard_brake ec distance_km [] of
        Inl e \<Rightarrow> Inl e
      | Inr recs1 \<Rightarrow>
          (case rec_harsh_accel ec distance_km recs1 of
             Inl e \<Rightarrow> Inl e
           | Inr recs2 \<Rightarrow>
               (let recs3 = rec_overspeed ec max_overspeed_kmh recs2;
                    recs4 = rec_unsafe_curve ec recs3;
                    recs5 = (if recs4 = [] then recs4 @ [REC_EXCELLENT] else recs4)
                in Inr (take 3 recs5))))"

subsection \<open>\<^verbatim>\<open>score_trip\<close> (lines 72 to 197)\<close>

text \<open>
  \<^verbatim>\<open>max((trip_data.get("distance_m") or 0) / 1000, 1.0)\<close> and the same for the duration
  in minutes (computed by the source and not used afterwards).
\<close>

definition distance_km_of :: "pydict \<Rightarrow> py_error + rat" where
  "distance_km_of trip_data =
     (case as_number (py_or (dict_get trip_data ''distance_m'' PyNone) (PyNum 0)) of
        Inl e \<Rightarrow> Inl e
      | Inr m \<Rightarrow> Inr (max (m / 1000) 1))"

definition duration_min_of :: "pydict \<Rightarrow> py_error + rat" where
  "duration_min_of trip_data =
     (case as_number (py_or (dict_get trip_data ''duration_seconds'' PyNone) (PyNum 0)) of
        Inl e \<Rightarrow> Inl e
      | Inr s \<Rightarrow> Inr (max (s / 60) 1))"

text \<open>
  The local variables of \<^verbatim>\<open>score_trip\<close> when line 168 is reached: the part of the
  function that reads the input (lines 89 to 167). The breakdown holds the contributions
  as computed, before the rounding of line 196.
\<close>

record scoring_state =
  st_distance_km :: rat
  st_event_counts :: event_counts
  st_max_overspeed_kmh :: rat
  st_breakdown :: breakdown_dict
  st_issues :: "string list"

definition max_speed_issue :: "rat \<Rightarrow> string" where
  "max_speed_issue max_overspeed_kmh =
     ''Max speed exceeded limit by '' @ format_0f max_overspeed_kmh @ '' km/h''"

definition analyse_trip :: "pydict \<Rightarrow> pydict list \<Rightarrow> pydict list \<Rightarrow> py_error + scoring_state" where
  "analyse_trip trip_data evs sign_detections =
     (case distance_km_of trip_data of
        Inl e \<Rightarrow> Inl e
      | Inr distance_km \<Rightarrow>
     (case duration_min_of trip_data of
        Inl e \<Rightarrow> Inl e
      | Inr duration_min \<Rightarrow>
     (case count_events evs [] 0 of
        Inl e \<Rightarrow> Inl e
      | Inr (ec, max_overspeed_kmh) \<Rightarrow>
     (case deduct_events distance_km ec 0 [] of
        Inl e \<Rightarrow> Inl e
      | Inr (event_deduction, iss) \<Rightarrow>
          (let events_contribution = - min event_deduction 40;
               overspeed_deduction = max_overspeed_kmh * OVERSPEED_PENALTY_PER_KMH;
               overspeed_contribution = - min overspeed_deduction 20;
               iss' = (if max_overspeed_kmh > 10
                       then iss @ [max_speed_issue max_overspeed_kmh] else iss)
           in (case scan_detections sign_detections [] of
                 Inl e \<Rightarrow> Inl e
               | Inr detected_limits \<Rightarrow>
                   Inr \<lparr>st_distance_km = distance_km,
                        st_event_counts = ec,
                        st_max_overspeed_kmh = max_overspeed_kmh,
                        st_breakdown =
                          \<lparr>base = 100,
                           events = events_contribution,
                           overspeed = overspeed_contribution,
                           sign_compliance = (if detected_limits \<noteq> [] then 5 else 0)\<rparr>,
                        st_issues = iss'\<rparr>))))))"

text \<open>Lines 169 to 171: the sum of the contributions, clamped to 0..100.\<close>

definition final_score_of :: "breakdown_dict \<Rightarrow> rat" where
  "final_score_of b = max 0 (min 100 (100 + events b + overspeed b + sign_compliance b))"

text \<open>Line 196: every entry of the breakdown rounded to one decimal place.\<close>

definition round_breakdown :: "breakdown_dict \<Rightarrow> breakdown_dict" where
  "round_breakdown b =
     \<lparr>base = py_round1 (base b),
      events = py_round1 (events b),
      overspeed = py_round1 (overspeed b),
      sign_compliance = py_round1 (sign_compliance b)\<rparr>"

definition score_trip :: "pydict \<Rightarrow> pydict list \<Rightarrow> pydict list \<Rightarrow> py_error + SafetyScore" where
  "score_trip trip_data evs sign_detections =
     (case analyse_trip trip_data evs sign_detections of
        Inl e \<Rightarrow> Inl e
      | Inr st \<Rightarrow>
          (let final_score = final_score_of (st_breakdown st)
           in (case generate_recommendations (st_event_counts st) (st_max_overspeed_kmh st)
                      (st_distance_km st) of
                 Inl e \<Rightarrow> Inl e
               | Inr recs \<Rightarrow>
                   Inr \<lparr>score = py_round final_score,
                        risk_level = risk_level_of final_score,
                        grade = grade_of final_score,
                        issues = st_issues st,
                        recommendations = recs,
                        breakdown = round_breakdown (st_breakdown st)\<rparr>)))"

section \<open>Structurally valid input\<close>

text \<open>
  The input the scorer is written for: a numeric field is absent, \<open>None\<close> or a number,
  and \<open>sign_class\<close> is absent or a string. The event type may be any value (the
  source only counts and compares it), and keys the scorer does not read are free.
\<close>

definition optional_number :: "pyval option \<Rightarrow> bool" where
  "optional_number v =
     (case v of None \<Rightarrow> True | Some PyNone \<Rightarrow> True | Some (PyNum r) \<Rightarrow> True
      | Some (PyStr s) \<Rightarrow> False)"

definition optional_string :: "pyval option \<Rightarrow> bool" where
  "optional_string v =
     (case v of None \<Rightarrow> True | Some (PyStr s) \<Rightarrow> True | Some PyNone \<Rightarrow> False
      | Some (PyNum r) \<Rightarrow> False)"

definition valid_trip :: "pydict \<Rightarrow> bool" where
  "valid_trip trip_data =
     (optional_number (trip_data ''distance_m'') \<and> optional_number (trip_data ''duration_seconds''))"

definition valid_event :: "pydict \<Rightarrow> bool" where
  "valid_event event = optional_number (event ''speed_m_s'')"

definition valid_detection :: "pydict \<Rightarrow> bool" where
  "valid_detection detection = optional_string (detection ''sign_class'')"

definition valid_input :: "pydict \<Rightarrow> pydict list \<Rightarrow> pydict list \<Rightarrow> bool" where
  "valid_input trip_data evs sign_detections =
     (valid_trip trip_data \<and> list_all valid_event evs \<and> list_all valid_detection sign_detections)"

section \<open>Inputs of the scenarios\<close>

definition trip_10km :: pydict where
  "trip_10km = [''distance_m'' \<mapsto> PyNum 10000]"

definition hard_brake_event :: pydict where
  "hard_brake_event = [''event_type'' \<mapsto> PyStr ''hard_brake'']"

definition overspeed_event_25 :: pydict where
  "overspeed_event_25 = [''event_type'' \<mapsto> PyStr ''overspeed'', ''speed_m_s'' \<mapsto> PyNum 25]"

definition six_hard_brakes :: "pydict list" where
  "six_hard_brakes =
     [hard_brake_event, hard_brake_event, hard_brake_event,
      hard_brake_event, hard_brake_event, hard_brake_event]"

section \<open>Closed forms of the loops\<close>

text \<open>
  What the loop over \<^verbatim>\<open>event_counts\<close> adds up and collects, and the state that
  \<open>analyse_trip\<close> reaches from the distance, the counts, the largest excess and the
  detected limits. The lemmas below show that the scorer computes exactly these.
\<close>

definition event_deduction_of :: "rat \<Rightarrow> event_counts \<Rightarrow> rat" where
  "event_deduction_of d ec = sum_list (map (\<lambda>(k, n). of_nat n / d * 100 * event_penalty k) ec)"

definition event_issues_of :: "event_counts \<Rightarrow> string list" where
  "event_issues_of ec = concat (map (\<lambda>(k, n). type_issue k n) ec)"

definition state_of :: "rat \<Rightarrow> event_counts \<Rightarrow> rat \<Rightarrow> int list \<Rightarrow> scoring_state" where
  "state_of d ec mo ls =
     \<lparr>st_distance_km = d, st_event_counts = ec, st_max_overspeed_kmh = mo,
      st_breakdown =
        \<lparr>base = 100,
         events = - min (event_deduction_of d ec) 40,
         overspeed = - min (mo * OVERSPEED_PENALTY_PER_KMH) 20,
         sign_compliance = (if ls \<noteq> [] then 5 else 0)\<rparr>,
      st_issues = event_issues_of ec @ (if mo > 10 then [max_speed_issue mo] else [])\<rparr>"

definition result_of :: "scoring_state \<Rightarrow> string list \<Rightarrow> SafetyScore" where
  "result_of st recs =
     \<lparr>score = py_round (final_score_of (st_breakdown st)),
      risk_level = risk_level_of (final_score_of (st_breakdown st)),
      grade = grade_of (final_score_of (st_breakdown st)),
      issues = st_issues st,
      recommendations = recs,
      breakdown = round_breakdown (st_breakdown st)\<rparr>"

section \<open>The largest excess in the words of the specification\<close>




section \<open>The recommendation rules in the words of the specification\<close>

text \<open>
  The four rules of the specification, each giving the messages it generates (none or
  one), and the messages generated in the fixed order hard brake, harsh acceleration,
  overspeed, unsafe curve.
\<close>

definition hard_brake_rule :: "event_counts \<Rightarrow> rat \<Rightarrow> string list" where
  "hard_brake_rule ec distance_km =
     (let rate = of_nat (counts_get ec (PyStr ''hard_brake'') 0) / distance_km * 100
      in if rate > 5 then [REC_FOLLOWING_DISTANCE]
         else if rate > 2 then [REC_LOOK_AHEAD]
         else [])"

definition harsh_accel_rule :: "event_counts \<Rightarrow> rat \<Rightarrow> string list" where
  "harsh_accel_rule ec distance_km =
     (let rate = of_nat (counts_get ec (PyStr ''harsh_accel'') 0) / distance_km * 100
      in if rate > 3 then [REC_SMOOTH_ACCEL] else [])"

definition overspeed_rule :: "event_counts \<Rightarrow> rat \<Rightarrow> string list" where
  "overspeed_rule ec max_overspeed_kmh =
     (if counts_get ec (PyStr ''overspeed'') 0 > 0 \<or> max_overspeed_kmh > 5
      then (if max_overspeed_kmh > 20 then [REC_DANGEROUS_SPEED] else [REC_WATCH_SPEED])
      else [])"

definition unsafe_curve_rule :: "event_counts \<Rightarrow> string list" where
  "unsafe_curve_rule ec = (if counts_get ec (PyStr ''unsafe_curve'') 0 > 0 then [REC_CURVES] else [])"

definition generated_messages :: "event_counts \<Rightarrow> rat \<Rightarrow> rat \<Rightarrow> string list" where
  "generated_messages ec max_overspeed_kmh distance_km =
     hard_brake_rule ec distance_km @ harsh_accel_rule ec distance_km @
     overspeed_rule ec max_overspeed_kmh @ unsafe_curve_rule ec"

definition all_four_counts :: event_counts where
  "all_four_counts =
     [(PyStr ''hard_brake'', 1), (PyStr ''harsh_accel'', 1),
      (PyStr ''overspeed'', 1), (PyStr ''unsafe_curve'', 1)]"


section \<open>What the scorer reads of the detections\<close>

text \<open>
  A detection is of a speed-limit class when its \<open>sign_class\<close> is a string containing
  \<^verbatim>\<open>speed_limit_\<close>. Two lists of detections show the same speed-limit signs when, with
  all other detections left out and everything but the class forgotten, they are the
  same list: they differ only in confidence values (and further keys) and in
  detections of other classes.
\<close>

definition sign_class_of :: "pydict \<Rightarrow> pyval" where
  "sign_class_of detection = dict_get detection ''sign_class'' (PyStr '''')"

definition is_speed_limit_class :: "pydict \<Rightarrow> bool" where
  "is_speed_limit_class detection =
     (case sign_class_of detection of
        PyStr s \<Rightarrow> str_contains s ''speed_limit_''
      | _ \<Rightarrow> False)"

definition same_speed_limit_signs :: "pydict list \<Rightarrow> pydict list \<Rightarrow> bool" where
  "same_speed_limit_signs ds ds' =
     (map sign_class_of (filter is_speed_limit_class ds) =
      map sign_class_of (filter is_speed_limit_class ds'))"

text \<open>The limits one class string contributes: its last token, when that is an integer.\<close>

definition class_limits :: "pyval \<Rightarrow> int list" where
  "class_limits c =
     (case c of
        PyStr s \<Rightarrow>
          (if str_contains s ''speed_limit_'' then
             (case py_int (last (str_split (CHR ''_'') s)) of Inr n \<Rightarrow> [n] | Inl e \<Rightarrow> [])
           else [])
      | _ \<Rightarrow> [])"

definition detection_60 :: pydict where
  "detection_60 = [''sign_class'' \<mapsto> PyStr ''speed_limit_60'', ''confidence'' \<mapsto> PyNum (9 / 10)]"

definition detection_60_low :: pydict where
  "detection_60_low = [''sign_class'' \<mapsto> PyStr ''speed_limit_60'', ''confidence'' \<mapsto> PyNum (1 / 10)]"

definition detection_stop :: pydict where
  "detection_stop = [''sign_class'' \<mapsto> PyStr ''stop'', ''confidence'' \<mapsto> PyNum (1 / 2)]"

section \<open>Defaults\<close>








definition trip_204km :: pydict where
  "trip_204km = [''distance_m'' \<mapsto> PyNum 204000]"

section \<open>Rounding\<close>

lemma py_round_of_int: "py_round (of_int n) = n"
  by (simp add: py_round_def)



lemma py_round_mono:
  assumes "x \<le> y"
  shows "py_round x \<le> py_round y"
proof -
  have fl: "\<lfloor>x\<rfloor> \<le> \<lfloor>y\<rfloor>" using assms by (rule floor_mono)
  show ?thesis
  proof (cases "\<lfloor>x\<rfloor> = \<lfloor>y\<rfloor>")
    case True
    then show ?thesis using assms unfolding py_round_def Let_def by auto
  next
    case False
    with fl have "\<lfloor>x\<rfloor> + 1 \<le> \<lfloor>y\<rfloor>" by simp
    moreover have "py_round x \<le> \<lfloor>x\<rfloor> + 1" unfolding py_round_def Let_def by auto
    moreover have "\<lfloor>y\<rfloor> \<le> py_round y" unfolding py_round_def Let_def by auto
    ultimately show ?thesis by linarith
  qed
qed


lemma py_round1_mono: "x \<le> y \<Longrightarrow> py_round1 x \<le> py_round1 y"
  unfolding py_round1_def using py_round_mono [of "x * 10" "y * 10"] by (simp add: divide_right_mono)

lemma py_round1_of_int: "py_round1 (of_int n) = of_int n"
proof -
  have "(of_int n :: rat) * 10 = of_int (n * 10)" by simp
  then have "py_round ((of_int n :: rat) * 10) = n * 10" using py_round_of_int by metis
  then show ?thesis by (simp add: py_round1_def)
qed

lemma py_round1_range:
  assumes "of_int a \<le> x" and "x \<le> of_int b"
  shows "of_int a \<le> py_round1 x \<and> py_round1 x \<le> of_int b"
  using py_round1_mono [OF assms(1)] py_round1_mono [OF assms(2)] by (simp add: py_round1_of_int)


section \<open>The scorer returns on valid input\<close>

lemma as_number_or_zero:
  "optional_number (d k) \<Longrightarrow> \<exists>r. as_number (py_or (dict_get d k PyNone) (PyNum 0)) = Inr r"
  by (auto simp: optional_number_def dict_get_def py_or_def split: option.splits pyval.splits)

lemma distance_km_of_ge1: "distance_km_of t = Inr d \<Longrightarrow> 1 \<le> d"
  by (auto simp: distance_km_of_def split: sum.splits)

lemma distance_km_of_valid:
  "optional_number (t ''distance_m'') \<Longrightarrow> \<exists>d. distance_km_of t = Inr d"
  using as_number_or_zero [of t "''distance_m''"] by (auto simp: distance_km_of_def)

lemma duration_min_of_valid:
  "optional_number (t ''duration_seconds'') \<Longrightarrow> \<exists>d. duration_min_of t = Inr d"
  using as_number_or_zero [of t "''duration_seconds''"] by (auto simp: duration_min_of_def)

lemma overspeed_amount_valid:
  "valid_event e \<Longrightarrow> \<exists>a. overspeed_amount e = Inr a \<and> 0 \<le> a"
  using as_number_or_zero [of e "''speed_m_s''"] by (auto simp: overspeed_amount_def valid_event_def)

lemma count_events_valid:
  "list_all valid_event es \<Longrightarrow> \<exists>ec' mo'. count_events es ec mo = Inr (ec', mo')"
proof (induction es arbitrary: ec mo)
  case Nil
  then show ?case by simp
next
  case (Cons e es)
  then have v: "valid_event e" and vs: "list_all valid_event es" by simp_all
  from overspeed_amount_valid [OF v] obtain a where a: "overspeed_amount e = Inr a" by blast
  show ?case using Cons.IH [OF vs] a by (simp add: Let_def)
qed

lemma type_deduction_total:
  "d \<noteq> 0 \<Longrightarrow> type_deduction d k n = Inr (of_nat n / d * 100 * event_penalty k)"
  by (simp add: type_deduction_def py_div_def)

lemma deduct_events_total:
  "d \<noteq> 0 \<Longrightarrow>
   deduct_events d ec ded iss = Inr (ded + event_deduction_of d ec, iss @ event_issues_of ec)"
  by (induction ec arbitrary: ded iss)
    (auto simp: type_deduction_total event_deduction_of_def event_issues_of_def)

lemma str_split_not_Nil: "str_split sep s \<noteq> []"
  by (induction s) (auto split: list.splits)

lemma py_last_split: "py_last (str_split sep s) = Inr (last (str_split sep s))"
  using str_split_not_Nil [of sep s] by (auto simp: py_last_def split: list.splits)

lemma py_int_error: "py_int s = Inl e \<Longrightarrow> e = ValueError"
  by (auto simp: py_int_def Let_def split: option.splits if_splits)

lemma scan_detection_valid:
  "valid_detection d \<Longrightarrow> \<exists>l'. scan_detection d l = Inr l'"
  using py_int_error
  by (auto simp: scan_detection_def valid_detection_def optional_string_def dict_get_def
      py_last_split split: option.splits pyval.splits sum.splits py_error.splits)

lemma scan_detections_valid:
  "list_all valid_detection ds \<Longrightarrow> \<exists>l'. scan_detections ds l = Inr l'"
proof (induction ds arbitrary: l)
  case Nil
  then show ?case by simp
next
  case (Cons d ds)
  then have v: "valid_detection d" and vs: "list_all valid_detection ds" by simp_all
  from scan_detection_valid [OF v] obtain l1 where "scan_detection d l = Inr l1" by blast
  then show ?case using Cons.IH [OF vs] by simp
qed

lemma generate_recommendations_total:
  "d \<noteq> 0 \<Longrightarrow> \<exists>recs. generate_recommendations ec mo d = Inr recs"
  by (auto simp: generate_recommendations_def rec_hard_brake_def rec_harsh_accel_def py_div_def Let_def)

lemma analyse_trip_Inr:
  assumes "analyse_trip t es ds = Inr st"
  obtains d ec mo ls where
    "distance_km_of t = Inr d" and "1 \<le> d"
    and "count_events es [] 0 = Inr (ec, mo)"
    and "scan_detections ds [] = Inr ls"
    and "st = state_of d ec mo ls"
proof -
  from assms obtain d where d: "distance_km_of t = Inr d"
    by (auto simp: analyse_trip_def split: sum.splits)
  then have d1: "1 \<le> d" by (rule distance_km_of_ge1)
  then have d0: "d \<noteq> 0" by auto
  from assms d obtain ec mo where c: "count_events es [] 0 = Inr (ec, mo)"
    by (auto simp: analyse_trip_def split: sum.splits)
  from assms d c obtain ls where l: "scan_detections ds [] = Inr ls"
    by (auto simp: analyse_trip_def Let_def deduct_events_total [OF d0] split: sum.splits)
  have "st = state_of d ec mo ls"
    using assms d c l
    by (auto simp: analyse_trip_def Let_def deduct_events_total [OF d0] state_of_def
        split: sum.splits)
  with d d1 c l show thesis by (rule that)
qed

lemma analyse_trip_eq:
  assumes "distance_km_of t = Inr d" and "duration_min_of t = Inr dm"
    and "count_events es [] 0 = Inr (ec, mo)" and "scan_detections ds [] = Inr ls"
  shows "analyse_trip t es ds = Inr (state_of d ec mo ls)"
proof -
  from assms(1) have "1 \<le> d" by (rule distance_km_of_ge1)
  then have d0: "d \<noteq> 0" by auto
  show ?thesis using assms
    by (simp add: analyse_trip_def Let_def deduct_events_total [OF d0] state_of_def)
qed

lemma analyse_trip_valid:
  assumes "valid_input t es ds"
  shows "\<exists>st. analyse_trip t es ds = Inr st"
proof -
  from assms have vt: "valid_trip t" and ve: "list_all valid_event es"
    and vd: "list_all valid_detection ds" by (simp_all add: valid_input_def)
  from vt obtain d where d: "distance_km_of t = Inr d"
    using distance_km_of_valid by (auto simp: valid_trip_def)
  from vt obtain dm where dm: "duration_min_of t = Inr dm"
    using duration_min_of_valid by (auto simp: valid_trip_def)
  from count_events_valid [OF ve] obtain ec mo where c: "count_events es [] 0 = Inr (ec, mo)"
    by blast
  from scan_detections_valid [OF vd] obtain ls where l: "scan_detections ds [] = Inr ls"
    by blast
  show ?thesis using analyse_trip_eq [OF d dm c l] by blast
qed

lemma score_trip_Inr:
  assumes "score_trip t es ds = Inr r"
  obtains st recs where "analyse_trip t es ds = Inr st"
    and "generate_recommendations (st_event_counts st) (st_max_overspeed_kmh st) (st_distance_km st) = Inr recs"
    and "r = result_of st recs"
  using assms by (auto simp: score_trip_def Let_def result_of_def split: sum.splits)

lemma score_trip_eq:
  assumes "analyse_trip t es ds = Inr st"
    and "generate_recommendations (st_event_counts st) (st_max_overspeed_kmh st) (st_distance_km st) = Inr recs"
  shows "score_trip t es ds = Inr (result_of st recs)"
  using assms by (simp add: score_trip_def Let_def result_of_def)

lemma score_trip_returns:
  assumes "analyse_trip t es ds = Inr st"
  shows "\<exists>r. score_trip t es ds = Inr r"
proof -
  from assms obtain d where "st_distance_km st = d" and "1 \<le> d"
    by (auto elim!: analyse_trip_Inr simp: state_of_def)
  then have "st_distance_km st \<noteq> 0" by auto
  from generate_recommendations_total [OF this] obtain recs where
    "generate_recommendations (st_event_counts st) (st_max_overspeed_kmh st) (st_distance_km st) = Inr recs"
    by blast
  with assms show ?thesis by (simp add: score_trip_def Let_def)
qed

lemma score_trip_valid: "valid_input t es ds \<Longrightarrow> \<exists>r. score_trip t es ds = Inr r"
  using analyse_trip_valid score_trip_returns by blast

section \<open>Caps of the contributions\<close>

lemma event_penalty_nonneg: "0 \<le> event_penalty k"
  by (simp add: event_penalty_def EVENT_PENALTIES_def)

lemma event_deduction_nonneg:
  assumes "0 < d"
  shows "0 \<le> event_deduction_of d ec"
  unfolding event_deduction_of_def
proof (rule sum_list_nonneg)
  fix x assume "x \<in> set (map (\<lambda>(k, n). of_nat n / d * 100 * event_penalty k) ec)"
  then obtain k n where "x = of_nat n / d * 100 * event_penalty k" by auto
  then show "0 \<le> x" using assms event_penalty_nonneg [of k] by simp
qed

lemma count_events_max_ge:
  "count_events es ec mo = Inr (ec', mo') \<Longrightarrow> mo \<le> mo'"
proof (induction es arbitrary: ec mo)
  case Nil
  then show ?case by simp
next
  case (Cons e es)
  show ?case
  proof (cases "event_type_of e = PyStr ''overspeed''")
    case True
    with Cons.prems obtain a where "overspeed_amount e = Inr a"
      and "count_events es (count_up ec (event_type_of e)) (max mo a) = Inr (ec', mo')"
      by (auto simp: Let_def split: sum.splits)
    then have "max mo a \<le> mo'" using Cons.IH by blast
    then show ?thesis by simp
  next
    case False
    with Cons.prems have "count_events es (count_up ec (event_type_of e)) mo = Inr (ec', mo')"
      by (simp add: Let_def)
    then show ?thesis using Cons.IH by blast
  qed
qed

lemma analysed_breakdown_bounds:
  assumes "analyse_trip t es ds = Inr st"
  shows "- 40 \<le> events (st_breakdown st) \<and> events (st_breakdown st) \<le> 0 \<and>
         - 20 \<le> overspeed (st_breakdown st) \<and> overspeed (st_breakdown st) \<le> 0 \<and>
         (sign_compliance (st_breakdown st) = 0 \<or> sign_compliance (st_breakdown st) = 5) \<and>
         base (st_breakdown st) = 100"
proof -
  from assms obtain d ec mo ls where "distance_km_of t = Inr d" and d1: "1 \<le> d"
    and c: "count_events es [] 0 = Inr (ec, mo)"
    and "scan_detections ds [] = Inr ls"
    and st: "st = state_of d ec mo ls"
    by (rule analyse_trip_Inr)
  from d1 have "0 < d" by simp
  then have e: "0 \<le> event_deduction_of d ec"
    by (rule event_deduction_nonneg)
  have "0 \<le> mo" using count_events_max_ge [OF c] .
  then have o: "0 \<le> mo * OVERSPEED_PENALTY_PER_KMH" by (simp add: OVERSPEED_PENALTY_PER_KMH_def)
  show ?thesis using e o by (simp add: st state_of_def)
qed

text \<open>
  C3: whenever \<open>score_trip\<close> returns, the events contribution of the returned breakdown
  lies between -40 and 0, the overspeed contribution between -20 and 0, and the
  sign_compliance contribution is 0 or 5; the same holds of the contributions before
  they are rounded to one decimal place.
\<close>

theorem breakdown_contributions_capped:
  assumes "score_trip trip_data evs sign_detections = Inr r"
  shows "- 40 \<le> events (breakdown r) \<and> events (breakdown r) \<le> 0 \<and>
         - 20 \<le> overspeed (breakdown r) \<and> overspeed (breakdown r) \<le> 0 \<and>
         (sign_compliance (breakdown r) = 0 \<or> sign_compliance (breakdown r) = 5) \<and>
         (\<exists>st. analyse_trip trip_data evs sign_detections = Inr st \<and>
            - 40 \<le> events (st_breakdown st) \<and> events (st_breakdown st) \<le> 0 \<and>
            - 20 \<le> overspeed (st_breakdown st) \<and> overspeed (st_breakdown st) \<le> 0 \<and>
            (sign_compliance (st_breakdown st) = 0 \<or> sign_compliance (st_breakdown st) = 5))"
proof -
  from assms obtain st recs where st: "analyse_trip trip_data evs sign_detections = Inr st"
    and "generate_recommendations (st_event_counts st) (st_max_overspeed_kmh st) (st_distance_km st) = Inr recs"
    and "r = result_of st recs"
    by (rule score_trip_Inr)
  then have b: "breakdown r = round_breakdown (st_breakdown st)" by (simp add: result_of_def)
  note raw = analysed_breakdown_bounds [OF st]
  have ev: "- 40 \<le> py_round1 (events (st_breakdown st)) \<and> py_round1 (events (st_breakdown st)) \<le> 0"
    using py_round1_range [of "- 40" "events (st_breakdown st)" 0] raw by simp
  have ov: "- 20 \<le> py_round1 (overspeed (st_breakdown st)) \<and> py_round1 (overspeed (st_breakdown st)) \<le> 0"
    using py_round1_range [of "- 20" "overspeed (st_breakdown st)" 0] raw by simp
  have sc: "py_round1 (sign_compliance (st_breakdown st)) = 0 \<or>
            py_round1 (sign_compliance (st_breakdown st)) = 5"
    using raw py_round1_of_int [of 0] py_round1_of_int [of 5] by auto
  show ?thesis using st raw ev ov sc by (simp add: b round_breakdown_def)
qed

theorem breakdown_contributions_capped_witness:
  "\<exists>r. score_trip trip_10km six_hard_brakes [] = Inr r \<and>
       - 40 \<le> events (breakdown r) \<and> events (breakdown r) \<le> 0 \<and>
       - 20 \<le> overspeed (breakdown r) \<and> overspeed (breakdown r) \<le> 0 \<and>
       (sign_compliance (breakdown r) = 0 \<or> sign_compliance (breakdown r) = 5)"
proof -
  have "valid_input trip_10km six_hard_brakes []"
    by (simp add: valid_input_def valid_trip_def valid_event_def optional_number_def
        trip_10km_def hard_brake_event_def six_hard_brakes_def)
  then obtain r where r: "score_trip trip_10km six_hard_brakes [] = Inr r"
    using score_trip_valid by blast
  show ?thesis using r breakdown_contributions_capped [OF r] by simp
qed

section \<open>The score\<close>





section \<open>Scenario B\<close>

lemma sorted_risk: "sorted_desc RISK_THRESHOLDS = [(''low'', 80), (''medium'', 60), (''high'', 0)]"
  by (simp add: sorted_desc_def RISK_THRESHOLDS_def)

lemma sorted_grade:
  "sorted_desc GRADE_THRESHOLDS = [(''A'', 90), (''B'', 80), (''C'', 70), (''D'', 60), (''F'', 0)]"
  by (simp add: sorted_desc_def GRADE_THRESHOLDS_def)

lemma trip_10km_distance: "distance_km_of trip_10km = Inr 10"
  by (simp add: distance_km_of_def trip_10km_def dict_get_def py_or_def)

lemma trip_10km_duration: "duration_min_of trip_10km = Inr 1"
  by (simp add: duration_min_of_def trip_10km_def dict_get_def py_or_def)

lemma hard_brake_event_type: "event_type_of hard_brake_event = PyStr ''hard_brake''"
  by (simp add: event_type_of_def hard_brake_event_def dict_get_def)

lemma six_hard_brakes_counts:
  "count_events six_hard_brakes [] 0 = Inr ([(PyStr ''hard_brake'', 6)], 0)"
  by (simp add: six_hard_brakes_def hard_brake_event_type Let_def)

lemma str_nat_digit: "n < 10 \<Longrightarrow> str_nat n = [digit_char n]"
  by (simp add: str_nat.simps)

lemma scenario_b_state:
  "analyse_trip trip_10km six_hard_brakes [] = Inr (state_of 10 [(PyStr ''hard_brake'', 6)] 0 [])"
  by (rule analyse_trip_eq [OF trip_10km_distance trip_10km_duration six_hard_brakes_counts]) simp

lemma scenario_b_recommendations:
  "generate_recommendations [(PyStr ''hard_brake'', 6)] 0 10 = Inr [REC_FOLLOWING_DISTANCE]"
  by (simp add: generate_recommendations_def rec_hard_brake_def rec_harsh_accel_def
      rec_overspeed_def rec_unsafe_curve_def counts_get_def py_div_def Let_def)

lemma scenario_b_breakdown:
  "st_breakdown (state_of 10 [(PyStr ''hard_brake'', 6)] 0 []) =
     \<lparr>base = 100, events = - 40, overspeed = 0, sign_compliance = 0\<rparr>"
  by (simp add: state_of_def event_deduction_of_def event_penalty_def EVENT_PENALTIES_def
      OVERSPEED_PENALTY_PER_KMH_def)

lemma scenario_b_issues:
  "st_issues (state_of 10 [(PyStr ''hard_brake'', 6)] 0 []) = [''Hard braking: 6 times'']"
  by (simp add: state_of_def event_issues_of_def type_issue_def str_nat_digit digit_char_def)

lemma py_round_numeral: "py_round (numeral n) = numeral n" and py_round_zero: "py_round 0 = 0"
  using py_round_of_int [of "numeral n"] py_round_of_int [of 0] by simp_all

lemma py_round1_numeral: "py_round1 (numeral n) = numeral n" and py_round1_zero: "py_round1 0 = 0"
  and py_round1_neg_numeral: "py_round1 (- numeral n) = - numeral n"
  using py_round1_of_int [of "numeral n"] py_round1_of_int [of 0] py_round1_of_int [of "- numeral n"]
  by simp_all

lemma scenario_b_result:
  "score_trip trip_10km six_hard_brakes [] =
     Inr \<lparr>score = 60, risk_level = ''medium'', grade = ''D'',
          issues = [''Hard braking: 6 times''],
          recommendations = [REC_FOLLOWING_DISTANCE],
          breakdown = \<lparr>base = 100, events = - 40, overspeed = 0, sign_compliance = 0\<rparr>\<rparr>"
proof -
  let ?st = "state_of 10 [(PyStr ''hard_brake'', 6)] 0 []"
  have g: "generate_recommendations (st_event_counts ?st) (st_max_overspeed_kmh ?st) (st_distance_km ?st)
           = Inr [REC_FOLLOWING_DISTANCE]"
    using scenario_b_recommendations by (simp add: state_of_def)
  have f: "final_score_of \<lparr>base = 100, events = - 40, overspeed = 0, sign_compliance = 0\<rparr> = 60"
    by (simp add: final_score_of_def)
  have "result_of ?st [REC_FOLLOWING_DISTANCE] =
     \<lparr>score = 60, risk_level = ''medium'', grade = ''D'',
          issues = [''Hard braking: 6 times''],
          recommendations = [REC_FOLLOWING_DISTANCE],
          breakdown = \<lparr>base = 100, events = - 40, overspeed = 0, sign_compliance = 0\<rparr>\<rparr>"
    unfolding result_of_def scenario_b_issues scenario_b_breakdown f
    by (simp add: py_round_numeral risk_level_of_def grade_of_def sorted_risk sorted_grade
        round_breakdown_def py_round1_numeral py_round1_zero py_round1_neg_numeral)
  then show ?thesis using score_trip_eq [OF scenario_b_state g] by simp
qed

lemma scenario_b_deduction:
  "deduct_events 10 [(PyStr ''hard_brake'', 6)] 0 [] = Inr (180, [''Hard braking: 6 times''])"
  by (simp add: type_deduction_def py_div_def event_penalty_def EVENT_PENALTIES_def
      type_issue_def str_nat_digit digit_char_def)

text \<open>
  C5 (scenario B): for the trip \<open>{distance_m: 10000}\<close> with six hard_brake events and no
  detections the loop over the counts adds up a deduction of 180, and \<open>score_trip\<close>
  returns the events contribution -40, score 60, grade D, risk level medium, the issue
  "Hard braking: 6 times" and the recommendation of a larger following distance.
\<close>

theorem scenario_b_six_hard_brakes:
  "\<exists>r. score_trip trip_10km six_hard_brakes [] = Inr r \<and>
       distance_km_of trip_10km = Inr 10 \<and>
       count_events six_hard_brakes [] 0 = Inr ([(PyStr ''hard_brake'', 6)], 0) \<and>
       deduct_events 10 [(PyStr ''hard_brake'', 6)] 0 [] = Inr (180, [''Hard braking: 6 times'']) \<and>
       events (breakdown r) = - 40 \<and>
       score r = 60 \<and>
       grade r = ''D'' \<and>
       risk_level r = ''medium'' \<and>
       ''Hard braking: 6 times'' \<in> set (issues r) \<and>
       REC_FOLLOWING_DISTANCE \<in> set (recommendations r)"
  using scenario_b_result trip_10km_distance six_hard_brakes_counts scenario_b_deduction by simp

section \<open>The score and the breakdown as returned\<close>

text \<open>
  The score is rounded from the contributions as computed, the breakdown is rounded on
  its own: for a trip of 204 km with one hard brake the score is 99, while the entries
  of the returned breakdown add up to 98.5, which \<open>py_round\<close> takes to 98.
\<close>

lemma trip_204km_result:
  "\<exists>r. score_trip trip_204km [hard_brake_event] [] = Inr r \<and> score r = 99 \<and>
       events (breakdown r) = - (15 / 10) \<and> overspeed (breakdown r) = 0 \<and>
       sign_compliance (breakdown r) = 0"
proof -
  have d: "distance_km_of trip_204km = Inr 204"
    by (simp add: distance_km_of_def trip_204km_def dict_get_def py_or_def)
  have dm: "duration_min_of trip_204km = Inr 1"
    by (simp add: duration_min_of_def trip_204km_def dict_get_def py_or_def)
  have c: "count_events [hard_brake_event] [] 0 = Inr ([(PyStr ''hard_brake'', 1)], 0)"
    by (simp add: hard_brake_event_type Let_def)
  let ?st = "state_of 204 [(PyStr ''hard_brake'', 1)] 0 []"
  have st: "analyse_trip trip_204km [hard_brake_event] [] = Inr ?st"
    by (rule analyse_trip_eq [OF d dm c]) simp
  have "st_distance_km ?st \<noteq> 0" by (simp add: state_of_def)
  from generate_recommendations_total [OF this] obtain recs where
    g: "generate_recommendations (st_event_counts ?st) (st_max_overspeed_kmh ?st) (st_distance_km ?st) = Inr recs"
    by blast
  have b: "st_breakdown ?st =
           \<lparr>base = 100, events = - (25 / 17), overspeed = 0, sign_compliance = 0\<rparr>"
    by (simp add: state_of_def event_deduction_of_def event_penalty_def EVENT_PENALTIES_def
        OVERSPEED_PENALTY_PER_KMH_def)
  have f: "final_score_of \<lparr>base = 100, events = - (25 / 17), overspeed = 0, sign_compliance = 0\<rparr>
           = 1675 / 17"
    by (simp add: final_score_of_def)
  have "\<lfloor>(1675 :: rat) / 17\<rfloor> = 98" by (rule floor_unique) simp_all
  then have p: "py_round (1675 / 17) = 99" by (simp add: py_round_def Let_def)
  have "\<lfloor>- ((250 :: rat) / 17)\<rfloor> = - 15" by (rule floor_unique) simp_all
  then have q: "py_round1 (- (25 / 17)) = - (15 / 10)" by (simp add: py_round1_def py_round_def Let_def)
  have "score (result_of ?st recs) = 99 \<and>
        events (breakdown (result_of ?st recs)) = - (15 / 10) \<and>
        overspeed (breakdown (result_of ?st recs)) = 0 \<and>
        sign_compliance (breakdown (result_of ?st recs)) = 0"
    unfolding result_of_def b f
    by (simp add: p q round_breakdown_def py_round1_zero)
  then show ?thesis using score_trip_eq [OF st g] by blast
qed

lemma score_not_from_returned_breakdown:
  "\<exists>r. score_trip trip_204km [hard_brake_event] [] = Inr r \<and> score r = 99 \<and>
       py_round (max 0 (min 100 (100 + events (breakdown r) + overspeed (breakdown r)
                                  + sign_compliance (breakdown r)))) = 98"
proof -
  have "\<lfloor>(197 :: rat) / 2\<rfloor> = 98" by (rule floor_unique) simp_all
  then have "py_round (max 0 (min 100 (100 + (- (15 / 10)) + 0 + 0))) = 98"
    by (simp add: py_round_def Let_def)
  then show ?thesis using trip_204km_result by auto
qed

section \<open>Empty input\<close>





section \<open>The largest excess over the limit\<close>





section \<open>Scenario C\<close>

lemma overspeed_event_25_type: "event_type_of overspeed_event_25 = PyStr ''overspeed''"
  by (simp add: event_type_of_def overspeed_event_25_def dict_get_def)

lemma overspeed_event_25_amount: "overspeed_amount overspeed_event_25 = Inr 40"
  by (simp add: overspeed_amount_def overspeed_event_25_def dict_get_def py_or_def)

lemma scenario_c_counts:
  "count_events [overspeed_event_25] [] 0 = Inr ([(PyStr ''overspeed'', 1)], 40)"
  by (simp add: overspeed_event_25_type overspeed_event_25_amount Let_def)

lemma scenario_c_state:
  "analyse_trip trip_10km [overspeed_event_25] [] = Inr (state_of 10 [(PyStr ''overspeed'', 1)] 40 [])"
  by (rule analyse_trip_eq [OF trip_10km_distance trip_10km_duration scenario_c_counts]) simp

lemma str_nat_40: "str_nat 40 = ''40''"
  by (simp add: str_nat.simps [of 40] str_nat_digit digit_char_def)

lemma scenario_c_issues:
  "st_issues (state_of 10 [(PyStr ''overspeed'', 1)] 40 []) =
     [''Over speed limit: 1 times'', ''Max speed exceeded limit by 40 km/h'']"
  by (simp add: state_of_def event_issues_of_def type_issue_def str_nat_digit digit_char_def
      max_speed_issue_def format_0f_def py_round_numeral str_nat_40)

lemma scenario_c_breakdown:
  "st_breakdown (state_of 10 [(PyStr ''overspeed'', 1)] 40 []) =
     \<lparr>base = 100, events = - 40, overspeed = - 20, sign_compliance = 0\<rparr>"
  by (simp add: state_of_def event_deduction_of_def event_penalty_def EVENT_PENALTIES_def
      OVERSPEED_PENALTY_PER_KMH_def)

lemma scenario_c_recommendations:
  "generate_recommendations [(PyStr ''overspeed'', 1)] 40 10 = Inr [REC_DANGEROUS_SPEED]"
  by (simp add: generate_recommendations_def rec_hard_brake_def rec_harsh_accel_def
      rec_overspeed_def rec_unsafe_curve_def counts_get_def py_div_def Let_def)

lemma scenario_c_result:
  "score_trip trip_10km [overspeed_event_25] [] =
     Inr \<lparr>score = 40, risk_level = ''high'', grade = ''F'',
          issues = [''Over speed limit: 1 times'', ''Max speed exceeded limit by 40 km/h''],
          recommendations = [REC_DANGEROUS_SPEED],
          breakdown = \<lparr>base = 100, events = - 40, overspeed = - 20, sign_compliance = 0\<rparr>\<rparr>"
proof -
  let ?st = "state_of 10 [(PyStr ''overspeed'', 1)] 40 []"
  have g: "generate_recommendations (st_event_counts ?st) (st_max_overspeed_kmh ?st) (st_distance_km ?st)
           = Inr [REC_DANGEROUS_SPEED]"
    using scenario_c_recommendations by (simp add: state_of_def)
  have f: "final_score_of \<lparr>base = 100, events = - 40, overspeed = - 20, sign_compliance = 0\<rparr> = 40"
    by (simp add: final_score_of_def)
  have "result_of ?st [REC_DANGEROUS_SPEED] =
     \<lparr>score = 40, risk_level = ''high'', grade = ''F'',
          issues = [''Over speed limit: 1 times'', ''Max speed exceeded limit by 40 km/h''],
          recommendations = [REC_DANGEROUS_SPEED],
          breakdown = \<lparr>base = 100, events = - 40, overspeed = - 20, sign_compliance = 0\<rparr>\<rparr>"
    unfolding result_of_def scenario_c_issues scenario_c_breakdown f
    by (simp add: py_round_numeral risk_level_of_def grade_of_def sorted_risk sorted_grade
        round_breakdown_def py_round1_numeral py_round1_zero py_round1_neg_numeral)
  then show ?thesis using score_trip_eq [OF scenario_c_state g] by simp
qed



section \<open>Recommendations\<close>

lemma rec_hard_brake_eq:
  "d \<noteq> 0 \<Longrightarrow> rec_hard_brake ec d recs = Inr (recs @ hard_brake_rule ec d)"
  by (auto simp: rec_hard_brake_def hard_brake_rule_def py_div_def Let_def)

lemma rec_harsh_accel_eq:
  "d \<noteq> 0 \<Longrightarrow> rec_harsh_accel ec d recs = Inr (recs @ harsh_accel_rule ec d)"
  by (auto simp: rec_harsh_accel_def harsh_accel_rule_def py_div_def Let_def)

lemma rec_overspeed_eq: "rec_overspeed ec mo recs = recs @ overspeed_rule ec mo"
  by (simp add: rec_overspeed_def overspeed_rule_def Let_def)

lemma rec_unsafe_curve_eq: "rec_unsafe_curve ec recs = recs @ unsafe_curve_rule ec"
  by (simp add: rec_unsafe_curve_def unsafe_curve_rule_def Let_def)

lemma generate_recommendations_eq:
  assumes "d \<noteq> 0"
  shows "generate_recommendations ec mo d =
           Inr (take 3 (if generated_messages ec mo d = [] then [REC_EXCELLENT]
                        else generated_messages ec mo d))"
  by (simp add: generate_recommendations_def rec_hard_brake_eq [OF assms]
      rec_harsh_accel_eq [OF assms] rec_overspeed_eq rec_unsafe_curve_eq generated_messages_def
      Let_def)

lemma rule_lengths:
  "length (hard_brake_rule ec d) \<le> 1" "length (harsh_accel_rule ec d) \<le> 1"
  "length (overspeed_rule ec mo) \<le> 1" "length (unsafe_curve_rule ec) \<le> 1"
  by (simp_all add: hard_brake_rule_def harsh_accel_rule_def overspeed_rule_def
      unsafe_curve_rule_def Let_def)

lemma length_le1_cases: "length xs \<le> 1 \<Longrightarrow> xs \<noteq> [] \<Longrightarrow> \<exists>x. xs = [x]"
  by (cases xs) auto

lemma curves_not_other:
  "REC_CURVES \<notin> set (hard_brake_rule ec d)" "REC_CURVES \<notin> set (harsh_accel_rule ec d)"
  "REC_CURVES \<notin> set (overspeed_rule ec mo)"
  by (simp_all add: hard_brake_rule_def harsh_accel_rule_def overspeed_rule_def Let_def
      REC_CURVES_def REC_FOLLOWING_DISTANCE_def REC_LOOK_AHEAD_def REC_SMOOTH_ACCEL_def
      REC_DANGEROUS_SPEED_def REC_WATCH_SPEED_def)

lemma take3_four_rules:
  assumes "length a \<le> 1" "length b \<le> 1" "length c \<le> 1" "a \<noteq> []" "b \<noteq> []" "c \<noteq> []"
  shows "take 3 (a @ b @ c @ e) = a @ b @ c"
proof -
  from assms obtain x y z where "a = [x]" "b = [y]" "c = [z]"
    using length_le1_cases by metis
  then show ?thesis by simp
qed

text \<open>
  C10: \<open>_generate_recommendations\<close>, called with a distance other than zero, returns the
  first three of the messages generated by the rules in the order hard brake, harsh
  acceleration, overspeed, unsafe curve, and the positive message alone when no rule
  generates one; so it returns at least one and at most three messages, and when all
  four rules fire the message of the unsafe-curve rule is the one dropped. The
  recommendations of every result of \<open>score_trip\<close> are such a list.
\<close>

theorem recommendations_first_three_in_rule_order:
  "(distance_km \<noteq> 0 \<longrightarrow>
      (\<exists>recs. generate_recommendations ec max_overspeed_kmh distance_km = Inr recs \<and>
         1 \<le> length recs \<and> length recs \<le> 3 \<and>
         (generated_messages ec max_overspeed_kmh distance_km \<noteq> [] \<longrightarrow>
            recs = take 3 (generated_messages ec max_overspeed_kmh distance_km)) \<and>
         (generated_messages ec max_overspeed_kmh distance_km = [] \<longrightarrow> recs = [REC_EXCELLENT]) \<and>
         (hard_brake_rule ec distance_km \<noteq> [] \<and> harsh_accel_rule ec distance_km \<noteq> [] \<and>
          overspeed_rule ec max_overspeed_kmh \<noteq> [] \<and> unsafe_curve_rule ec \<noteq> [] \<longrightarrow>
            recs = hard_brake_rule ec distance_km @ harsh_accel_rule ec distance_km @
                   overspeed_rule ec max_overspeed_kmh \<and>
            REC_CURVES \<notin> set recs))) \<and>
   (score_trip trip_data evs sign_detections = Inr r \<longrightarrow>
      1 \<le> length (recommendations r) \<and> length (recommendations r) \<le> 3 \<and>
      (\<exists>st. analyse_trip trip_data evs sign_detections = Inr st \<and>
         st_distance_km st \<noteq> 0 \<and>
         generate_recommendations (st_event_counts st) (st_max_overspeed_kmh st)
           (st_distance_km st) = Inr (recommendations r)))"
proof (intro conjI impI)
  assume d: "distance_km \<noteq> 0"
  let ?g = "generated_messages ec max_overspeed_kmh distance_km"
  let ?recs = "take 3 (if ?g = [] then [REC_EXCELLENT] else ?g)"
  have eq: "generate_recommendations ec max_overspeed_kmh distance_km = Inr ?recs"
    by (rule generate_recommendations_eq [OF d])
  have len: "1 \<le> length ?recs \<and> length ?recs \<le> 3"
    by (cases ?g) auto
  have all4: "?recs = hard_brake_rule ec distance_km @ harsh_accel_rule ec distance_km @
                   overspeed_rule ec max_overspeed_kmh \<and> REC_CURVES \<notin> set ?recs"
    if "hard_brake_rule ec distance_km \<noteq> [] \<and> harsh_accel_rule ec distance_km \<noteq> [] \<and>
          overspeed_rule ec max_overspeed_kmh \<noteq> [] \<and> unsafe_curve_rule ec \<noteq> []"
  proof -
    have "?g \<noteq> []" using that by (simp add: generated_messages_def)
    then have "?recs = take 3 ?g" by simp
    also have "\<dots> = hard_brake_rule ec distance_km @ harsh_accel_rule ec distance_km @
                   overspeed_rule ec max_overspeed_kmh"
      unfolding generated_messages_def using that rule_lengths
      by (intro take3_four_rules) auto
    finally show ?thesis using curves_not_other by simp
  qed
  show "\<exists>recs. generate_recommendations ec max_overspeed_kmh distance_km = Inr recs \<and>
         1 \<le> length recs \<and> length recs \<le> 3 \<and>
         (?g \<noteq> [] \<longrightarrow> recs = take 3 ?g) \<and>
         (?g = [] \<longrightarrow> recs = [REC_EXCELLENT]) \<and>
         (hard_brake_rule ec distance_km \<noteq> [] \<and> harsh_accel_rule ec distance_km \<noteq> [] \<and>
          overspeed_rule ec max_overspeed_kmh \<noteq> [] \<and> unsafe_curve_rule ec \<noteq> [] \<longrightarrow>
            recs = hard_brake_rule ec distance_km @ harsh_accel_rule ec distance_km @
                   overspeed_rule ec max_overspeed_kmh \<and>
            REC_CURVES \<notin> set recs)"
  proof (intro exI [of _ ?recs] conjI impI)
    show "generate_recommendations ec max_overspeed_kmh distance_km = Inr ?recs" by (rule eq)
    show "1 \<le> length ?recs" using len by blast
    show "length ?recs \<le> 3" using len by blast
    show "?recs = take 3 ?g" if "?g \<noteq> []" using that by simp
    show "?recs = [REC_EXCELLENT]" if "?g = []" using that by simp
    show "?recs = hard_brake_rule ec distance_km @ harsh_accel_rule ec distance_km @
                   overspeed_rule ec max_overspeed_kmh"
      if "hard_brake_rule ec distance_km \<noteq> [] \<and> harsh_accel_rule ec distance_km \<noteq> [] \<and>
          overspeed_rule ec max_overspeed_kmh \<noteq> [] \<and> unsafe_curve_rule ec \<noteq> []"
      using all4 [OF that] by blast
    show "REC_CURVES \<notin> set ?recs"
      if "hard_brake_rule ec distance_km \<noteq> [] \<and> harsh_accel_rule ec distance_km \<noteq> [] \<and>
          overspeed_rule ec max_overspeed_kmh \<noteq> [] \<and> unsafe_curve_rule ec \<noteq> []"
      using all4 [OF that] by blast
  qed
next
  assume r: "score_trip trip_data evs sign_detections = Inr r"
  then obtain st recs where st: "analyse_trip trip_data evs sign_detections = Inr st"
    and g: "generate_recommendations (st_event_counts st) (st_max_overspeed_kmh st) (st_distance_km st) = Inr recs"
    and req: "r = result_of st recs"
    by (rule score_trip_Inr)
  have rr: "recommendations r = recs" by (simp add: req result_of_def)
  from st obtain d where "st_distance_km st = d" and "1 \<le> d"
    by (auto elim!: analyse_trip_Inr simp: state_of_def)
  then have d0: "st_distance_km st \<noteq> 0" by auto
  let ?g = "generated_messages (st_event_counts st) (st_max_overspeed_kmh st) (st_distance_km st)"
  have "recs = take 3 (if ?g = [] then [REC_EXCELLENT] else ?g)"
    using g generate_recommendations_eq [OF d0] by simp
  then have len: "1 \<le> length recs \<and> length recs \<le> 3" by (cases ?g) auto
  show "1 \<le> length (recommendations r)" using len rr by simp
  show "length (recommendations r) \<le> 3" using len rr by simp
  show "\<exists>st. analyse_trip trip_data evs sign_detections = Inr st \<and>
         st_distance_km st \<noteq> 0 \<and>
         generate_recommendations (st_event_counts st) (st_max_overspeed_kmh st)
           (st_distance_km st) = Inr (recommendations r)"
    using st d0 g rr by auto
qed

lemma all_four_rules_fire:
  "hard_brake_rule all_four_counts 1 = [REC_FOLLOWING_DISTANCE]"
  "harsh_accel_rule all_four_counts 1 = [REC_SMOOTH_ACCEL]"
  "overspeed_rule all_four_counts 0 = [REC_WATCH_SPEED]"
  "unsafe_curve_rule all_four_counts = [REC_CURVES]"
  by (simp_all add: hard_brake_rule_def harsh_accel_rule_def overspeed_rule_def
      unsafe_curve_rule_def all_four_counts_def counts_get_def Let_def)

theorem recommendations_first_three_in_rule_order_witness:
  "(1::rat) \<noteq> 0 \<and>
   hard_brake_rule all_four_counts 1 \<noteq> [] \<and> harsh_accel_rule all_four_counts 1 \<noteq> [] \<and>
   overspeed_rule all_four_counts 0 \<noteq> [] \<and> unsafe_curve_rule all_four_counts \<noteq> [] \<and>
   generated_messages all_four_counts 0 1 \<noteq> [] \<and>
   generate_recommendations all_four_counts 0 1 =
     Inr [REC_FOLLOWING_DISTANCE, REC_SMOOTH_ACCEL, REC_WATCH_SPEED] \<and>
   generated_messages [] 0 1 = [] \<and>
   generate_recommendations [] 0 1 = Inr [REC_EXCELLENT] \<and>
   (\<exists>r. score_trip trip_10km six_hard_brakes [] = Inr r \<and>
        1 \<le> length (recommendations r) \<and> length (recommendations r) \<le> 3)"
proof -
  have g4: "generated_messages all_four_counts 0 1 \<noteq> []"
    by (simp add: generated_messages_def all_four_rules_fire)
  have g0: "generated_messages [] 0 1 = []"
    by (simp add: generated_messages_def hard_brake_rule_def harsh_accel_rule_def
        overspeed_rule_def unsafe_curve_rule_def counts_get_def Let_def)
  obtain r where r: "score_trip trip_10km six_hard_brakes [] = Inr r"
    using scenario_b_result by blast
  have one: "(1::rat) \<noteq> 0" by simp
  show ?thesis
    using one g4 g0 r
      recommendations_first_three_in_rule_order
        [of 1 all_four_counts 0 trip_10km six_hard_brakes "[]" r]
      recommendations_first_three_in_rule_order
        [of 1 "[]" 0 trip_10km six_hard_brakes "[]" r]
    by (auto simp: all_four_rules_fire)
qed

section \<open>Monotonicity in hard-brake events\<close>

lemma count_events_append:
  "count_events (es @ es') ec mo =
     (case count_events es ec mo of
        Inl x \<Rightarrow> Inl x
      | Inr (ec', mo') \<Rightarrow> count_events es' ec' mo')"
  by (induction es arbitrary: ec mo) (auto simp: Let_def split: sum.splits)

lemma count_events_snoc_other:
  assumes "count_events es ec mo = Inr (ec', mo')" and "event_type_of e \<noteq> PyStr ''overspeed''"
  shows "count_events (es @ [e]) ec mo = Inr (count_up ec' (event_type_of e), mo')"
  using assms by (simp add: count_events_append Let_def)

lemma event_deduction_count_up:
  "event_deduction_of d (count_up ec k) = event_deduction_of d ec + 1 / d * 100 * event_penalty k"
  by (induction ec) (auto simp: event_deduction_of_def algebra_simps add_divide_distrib)

lemma final_score_of_mono:
  assumes "events b' \<le> events b" and "overspeed b' = overspeed b"
    and "sign_compliance b' = sign_compliance b"
  shows "final_score_of b' \<le> final_score_of b"
  using assms by (simp add: final_score_of_def)

text \<open>
  C7: appending one hard_brake event to the events, with the trip summary and the
  detections unchanged, never raises the score: when \<open>score_trip\<close> returns without the
  event, it returns with it, and with a score that is not larger.
\<close>

theorem one_more_hard_brake_never_raises_score:
  assumes "event_type_of e = PyStr ''hard_brake''"
    and "score_trip trip_data evs sign_detections = Inr r"
  shows "\<exists>r'. score_trip trip_data (evs @ [e]) sign_detections = Inr r' \<and> score r' \<le> score r"
proof -
  from assms(2) obtain st recs where st: "analyse_trip trip_data evs sign_detections = Inr st"
    and "generate_recommendations (st_event_counts st) (st_max_overspeed_kmh st) (st_distance_km st) = Inr recs"
    and req: "r = result_of st recs"
    by (rule score_trip_Inr)
  from st obtain d ec mo ls where d: "distance_km_of trip_data = Inr d" and d1: "1 \<le> d"
    and c: "count_events evs [] 0 = Inr (ec, mo)"
    and l: "scan_detections sign_detections [] = Inr ls"
    and steq: "st = state_of d ec mo ls"
    by (rule analyse_trip_Inr)
  from st obtain dm where dm: "duration_min_of trip_data = Inr dm"
    by (auto simp: analyse_trip_def split: sum.splits)
  let ?ec = "count_up ec (PyStr ''hard_brake'')"
  have c': "count_events (evs @ [e]) [] 0 = Inr (?ec, mo)"
    using count_events_snoc_other [OF c, of e] assms(1) by simp
  let ?st = "state_of d ?ec mo ls"
  have st': "analyse_trip trip_data (evs @ [e]) sign_detections = Inr ?st"
    by (rule analyse_trip_eq [OF d dm c' l])
  have "st_distance_km ?st \<noteq> 0" using d1 by (simp add: state_of_def)
  from generate_recommendations_total [OF this] obtain recs' where
    g': "generate_recommendations (st_event_counts ?st) (st_max_overspeed_kmh ?st) (st_distance_km ?st) = Inr recs'"
    by blast
  have r': "score_trip trip_data (evs @ [e]) sign_detections = Inr (result_of ?st recs')"
    by (rule score_trip_eq [OF st' g'])
  have "0 \<le> 1 / d * 100 * event_penalty (PyStr ''hard_brake'')"
    using d1 event_penalty_nonneg [of "PyStr ''hard_brake''"] by simp
  then have "event_deduction_of d ec \<le> event_deduction_of d ?ec"
    by (simp add: event_deduction_count_up)
  then have "events (st_breakdown ?st) \<le> events (st_breakdown st)"
    by (simp add: steq state_of_def)
  then have "final_score_of (st_breakdown ?st) \<le> final_score_of (st_breakdown st)"
    by (rule final_score_of_mono) (simp_all add: steq state_of_def)
  then have "py_round (final_score_of (st_breakdown ?st)) \<le> py_round (final_score_of (st_breakdown st))"
    by (rule py_round_mono)
  then have "score (result_of ?st recs') \<le> score r"
    by (simp add: req result_of_def)
  with r' show ?thesis by blast
qed

theorem one_more_hard_brake_never_raises_score_witness:
  "event_type_of hard_brake_event = PyStr ''hard_brake'' \<and>
   score_trip trip_10km [overspeed_event_25] [] =
     Inr \<lparr>score = 40, risk_level = ''high'', grade = ''F'',
          issues = [''Over speed limit: 1 times'', ''Max speed exceeded limit by 40 km/h''],
          recommendations = [REC_DANGEROUS_SPEED],
          breakdown = \<lparr>base = 100, events = - 40, overspeed = - 20, sign_compliance = 0\<rparr>\<rparr> \<and>
   (\<exists>r'. score_trip trip_10km ([overspeed_event_25] @ [hard_brake_event]) [] = Inr r' \<and>
         score r' \<le> 40)"
  using hard_brake_event_type scenario_c_result
    one_more_hard_brake_never_raises_score [OF hard_brake_event_type scenario_c_result]
  by simp

section \<open>The counts do not depend on the order of the events\<close>












section \<open>Permuted events\<close>









section \<open>Detections\<close>

lemma scan_detection_eq:
  "valid_detection d \<Longrightarrow> scan_detection d ls = Inr (ls @ class_limits (sign_class_of d))"
  using py_int_error
  by (auto simp: scan_detection_def valid_detection_def optional_string_def dict_get_def
      sign_class_of_def class_limits_def py_last_split
      split: option.splits pyval.splits sum.splits py_error.splits)

lemma scan_detections_eq:
  "list_all valid_detection ds \<Longrightarrow>
   scan_detections ds ls = Inr (ls @ concat (map (\<lambda>d. class_limits (sign_class_of d)) ds))"
  by (induction ds arbitrary: ls) (simp_all add: scan_detection_eq)

lemma class_limits_other: "\<not> is_speed_limit_class d \<Longrightarrow> class_limits (sign_class_of d) = []"
  by (auto simp: is_speed_limit_class_def class_limits_def split: pyval.splits)

lemma limits_of_speed_limit_signs:
  "concat (map (\<lambda>d. class_limits (sign_class_of d)) ds) =
   concat (map class_limits (map sign_class_of (filter is_speed_limit_class ds)))"
  by (induction ds) (simp_all add: class_limits_other)

lemma analyse_trip_cong:
  "scan_detections ds [] = scan_detections ds' [] \<Longrightarrow> analyse_trip t es ds = analyse_trip t es ds'"
  by (simp add: analyse_trip_def Let_def split: sum.splits prod.splits)

lemma score_trip_cong:
  "scan_detections ds [] = scan_detections ds' [] \<Longrightarrow> score_trip t es ds = score_trip t es ds'"
  by (simp add: score_trip_def analyse_trip_cong [of ds ds'])

text \<open>
  C9: two calls of \<open>score_trip\<close> on the same trip summary and events, with valid detections
  that differ only in their confidence values and in the presence of detections whose
  class is not a speed-limit class, return the same result.
\<close>

theorem confidence_and_other_classes_ignored:
  assumes "list_all valid_detection ds" and "list_all valid_detection ds'"
    and "same_speed_limit_signs ds ds'"
  shows "score_trip trip_data evs ds = score_trip trip_data evs ds'"
proof -
  have "concat (map (\<lambda>d. class_limits (sign_class_of d)) ds) =
        concat (map (\<lambda>d. class_limits (sign_class_of d)) ds')"
    using assms(3) limits_of_speed_limit_signs [of ds] limits_of_speed_limit_signs [of ds']
    by (simp add: same_speed_limit_signs_def)
  then have "scan_detections ds [] = scan_detections ds' []"
    by (simp add: scan_detections_eq [OF assms(1)] scan_detections_eq [OF assms(2)])
  then show ?thesis by (rule score_trip_cong)
qed

lemma detection_classes:
  "sign_class_of detection_60 = PyStr ''speed_limit_60''"
  "sign_class_of detection_60_low = PyStr ''speed_limit_60''"
  "sign_class_of detection_stop = PyStr ''stop''"
  by (simp_all add: sign_class_of_def dict_get_def detection_60_def detection_60_low_def
      detection_stop_def)

lemma detections_valid:
  "valid_detection detection_60" "valid_detection detection_60_low" "valid_detection detection_stop"
  by (simp_all add: valid_detection_def optional_string_def detection_60_def detection_60_low_def
      detection_stop_def)

theorem confidence_and_other_classes_ignored_witness:
  "list_all valid_detection [detection_60] \<and>
   list_all valid_detection [detection_stop, detection_60_low] \<and>
   same_speed_limit_signs [detection_60] [detection_stop, detection_60_low] \<and>
   [detection_60] \<noteq> [detection_stop, detection_60_low] \<and>
   score_trip trip_10km six_hard_brakes [detection_60] =
   score_trip trip_10km six_hard_brakes [detection_stop, detection_60_low]"
proof -
  have v1: "list_all valid_detection [detection_60]" by (simp add: detections_valid)
  have v2: "list_all valid_detection [detection_stop, detection_60_low]"
    by (simp add: detections_valid)
  have s: "same_speed_limit_signs [detection_60] [detection_stop, detection_60_low]"
    by (simp add: same_speed_limit_signs_def is_speed_limit_class_def detection_classes)
  show ?thesis
    using v1 v2 s confidence_and_other_classes_ignored [OF v1 v2 s] by simp
qed

section \<open>Defaults instead of errors\<close>



















section \<open>Totality\<close>






end
